theory Spec2Isabelle
  imports Complex_Main "HOL-Library.Sublist"
begin

section \<open>Python values\<close>

text \<open>
  The backend \<^verbatim>\<open>app.py\<close> handles values that come out of \<^verbatim>\<open>json.load\<close> and
  \<^verbatim>\<open>response.json()\<close>: they are dynamically typed, so the model keeps one type of
  Python values. A \<^verbatim>\<open>dict\<close> is an association list read with \<open>map_of\<close>; its
  keys are strings, as every key of a JSON object is. A float is modelled by the
  rational number it denotes (every finite double is a rational); the non-finite
  floats \<^verbatim>\<open>inf\<close> and \<^verbatim>\<open>nan\<close> are not modelled.
\<close>

datatype pyval =
    PNone
  | PBool bool
  | PInt int
  | PFloat rat
  | PStr string
  | PList "pyval list"
  | PDict "(string \<times> pyval) list"

text \<open>The exceptions that the code under study can raise.\<close>

datatype py_error =
    TypeError
  | AttributeError
  | KeyError
  | IndexError
  | OSError
  | OtherException

text \<open>Sequencing of computations that may raise: the first exception wins.\<close>

definition and_then :: "py_error + 'a \<Rightarrow> ('a \<Rightarrow> py_error + 'b) \<Rightarrow> py_error + 'b" where
  "and_then m f = (case m of Inl e \<Rightarrow> Inl e | Inr x \<Rightarrow> f x)"

text \<open>Truth value testing, as in \<^verbatim>\<open>if nutrition_data:\<close> and \<^verbatim>\<open>if not nutrients:\<close>.\<close>

fun truthy :: "pyval \<Rightarrow> bool" where
  "truthy PNone = False"
| "truthy (PBool b) = b"
| "truthy (PInt n) = (n \<noteq> 0)"
| "truthy (PFloat q) = (q \<noteq> 0)"
| "truthy (PStr s) = (s \<noteq> [])"
| "truthy (PList xs) = (xs \<noteq> [])"
| "truthy (PDict kvs) = (kvs \<noteq> [])"

text \<open>\<^verbatim>\<open>x[key]\<close> for a string key: only a dict accepts it.\<close>

fun getitem_str :: "pyval \<Rightarrow> string \<Rightarrow> py_error + pyval" where
  "getitem_str (PDict kvs) k = (case map_of kvs k of None \<Rightarrow> Inl KeyError | Some v \<Rightarrow> Inr v)"
| "getitem_str _ k = Inl TypeError"

text \<open>
  \<^verbatim>\<open>x[0]\<close>: the first element of a list or string, IndexError when it is empty;
  a dict decoded from JSON has no key \<^verbatim>\<open>0\<close>, so it raises KeyError.
\<close>

fun getitem_0 :: "pyval \<Rightarrow> py_error + pyval" where
  "getitem_0 (PList xs) = (case xs of [] \<Rightarrow> Inl IndexError | x # _ \<Rightarrow> Inr x)"
| "getitem_0 (PStr s) = (case s of [] \<Rightarrow> Inl IndexError | c # _ \<Rightarrow> Inr (PStr [c]))"
| "getitem_0 (PDict kvs) = Inl KeyError"
| "getitem_0 _ = Inl TypeError"

text \<open>\<^verbatim>\<open>x.get(key, default)\<close>: a method of dicts only.\<close>

fun get_method :: "pyval \<Rightarrow> string \<Rightarrow> pyval \<Rightarrow> py_error + pyval" where
  "get_method (PDict kvs) k d = Inr (case map_of kvs k of None \<Rightarrow> d | Some v \<Rightarrow> v)"
| "get_method _ k d = Inl AttributeError"

text \<open>\<^verbatim>\<open>key in x\<close> for a string key.\<close>

fun py_contains :: "string \<Rightarrow> pyval \<Rightarrow> py_error + bool" where
  "py_contains k (PDict kvs) = Inr (map_of kvs k \<noteq> None)"
| "py_contains k (PList xs) = Inr (PStr k \<in> set xs)"
| "py_contains k (PStr s) = Inr (sublist k s)"
| "py_contains k _ = Inl TypeError"

text \<open>\<^verbatim>\<open>d[key] = value\<close>: a dict keeps the position of a key it already has.\<close>

fun dict_set :: "string \<Rightarrow> pyval \<Rightarrow> (string \<times> pyval) list \<Rightarrow> (string \<times> pyval) list" where
  "dict_set k v [] = [(k, v)]"
| "dict_set k v ((k', v') # kvs) =
     (if k' = k then (k, v) # kvs else (k', v') # dict_set k v kvs)"

fun setitem :: "pyval \<Rightarrow> string \<Rightarrow> pyval \<Rightarrow> py_error + pyval" where
  "setitem (PDict kvs) k v = Inr (PDict (dict_set k v kvs))"
| "setitem _ k v = Inl TypeError"

text \<open>\<^verbatim>\<open>len(x)\<close>.\<close>

fun py_len :: "pyval \<Rightarrow> py_error + nat" where
  "py_len (PDict kvs) = Inr (length kvs)"
| "py_len (PList xs) = Inr (length xs)"
| "py_len (PStr s) = Inr (length s)"
| "py_len _ = Inl TypeError"

section \<open>Rounding\<close>

text \<open>
  \<^verbatim>\<open>round(x, 1)\<close> leaves an int as it is (a bool is an int) and rounds a float to
  one decimal, correctly rounded from the exact value of the float, ties going
  to the even digit. The model keeps the decimal itself where Python keeps the
  double next to it; the two have the same integer part. \<^verbatim>\<open>int(x)\<close> truncates
  towards zero.
\<close>

datatype pynum = NInt int | NFloat rat

definition round_half_even :: "rat \<Rightarrow> int" where
  "round_half_even y =
     (let f = \<lfloor>y\<rfloor>; d = y - of_int f
      in if d < 1 / 2 then f else if 1 / 2 < d then f + 1
         else if even f then f else f + 1)"

definition round1 :: "rat \<Rightarrow> rat" where
  "round1 q = of_int (round_half_even (q * 10)) / 10"

fun py_round1 :: "pyval \<Rightarrow> py_error + pynum" where
  "py_round1 (PInt n) = Inr (NInt n)"
| "py_round1 (PBool b) = Inr (NInt (if b then 1 else 0))"
| "py_round1 (PFloat q) = Inr (NFloat (round1 q))"
| "py_round1 _ = Inl TypeError"

fun py_int :: "pynum \<Rightarrow> int" where
  "py_int (NInt n) = n"
| "py_int (NFloat q) = (if 0 \<le> q then \<lfloor>q\<rfloor> else \<lceil>q\<rceil>)"

fun num_val :: "pynum \<Rightarrow> pyval" where
  "num_val (NInt n) = PInt n"
| "num_val (NFloat q) = PFloat q"

section \<open>Fetching from the nutrition provider\<close>

text \<open>
  \<^verbatim>\<open>APP_ID\<close> and \<^verbatim>\<open>APP_KEY\<close> are what \<^verbatim>\<open>os.getenv\<close> returned at start:
  \<open>None\<close> for a variable that is not set.
\<close>

record config =
  APP_ID :: "string option"
  APP_KEY :: "string option"

text \<open>
  One call \<^verbatim>\<open>requests.post(url, json={"ingr": [...]})\<close>, and what the three lines
  \<^verbatim>\<open>post\<close>, \<^verbatim>\<open>raise_for_status\<close>, \<^verbatim>\<open>json\<close> come to: a
  \<^verbatim>\<open>RequestException\<close> (no connection, a status that is not 2xx, a body that is
  not JSON) or the decoded body.
\<close>

record post =
  url :: string
  ingr :: "string list"

datatype http_result = RequestFailed | Responded pyval

text \<open>An f-string prints \<^verbatim>\<open>None\<close> for a missing value.\<close>

fun fmt :: "string option \<Rightarrow> string" where
  "fmt None = ''None''"
| "fmt (Some s) = s"

text \<open>\<^verbatim>\<open>str.lower\<close>, on the ASCII letters that the class names are made of.\<close>

definition lower_char :: "char \<Rightarrow> char" where
  "lower_char c =
     (let n = (of_char c :: nat) in if 65 \<le> n \<and> n \<le> 90 then char_of (n + 32) else c)"

definition py_lower :: "string \<Rightarrow> string" where
  "py_lower s = map lower_char s"

definition api_post :: "config \<Rightarrow> string \<Rightarrow> post" where
  "api_post cfg food_name =
     \<lparr>url = ''https://api.edamam.com/api/nutrition-details?app_id='' @ fmt (APP_ID cfg)
              @ ''&app_key='' @ fmt (APP_KEY cfg),
      ingr = [''100g '' @ py_lower food_name]\<rparr>"

text \<open>
  The inner \<^verbatim>\<open>try\<close>: \<^verbatim>\<open>data['ingredients'][0]['parsed'][0]\<close>, then
  \<^verbatim>\<open>.get('nutrients', {})\<close>. IndexError and KeyError are caught and give
  \<open>None\<close>; any other exception goes on.
\<close>

definition parse_nutrients :: "pyval \<Rightarrow> py_error + pyval option" where
  "parse_nutrients data =
     (case and_then (getitem_str data ''ingredients'') (\<lambda>i.
           and_then (getitem_0 i) (\<lambda>i0.
           and_then (getitem_str i0 ''parsed'') (\<lambda>p.
           and_then (getitem_0 p) (\<lambda>parsed_data.
           get_method parsed_data ''nutrients'' (PDict []))))) of
        Inl IndexError \<Rightarrow> Inr None
      | Inl KeyError \<Rightarrow> Inr None
      | Inl e \<Rightarrow> Inl e
      | Inr nutrients \<Rightarrow> Inr (Some nutrients))"

definition get_nutrient :: "pyval \<Rightarrow> string \<Rightarrow> py_error + pynum" where
  "get_nutrient nutrients key =
     and_then (get_method nutrients key (PDict [])) (\<lambda>entry.
     and_then (get_method entry ''quantity'' (PInt 0)) py_round1)"

text \<open>The fields of \<^verbatim>\<open>nutritionPer100g\<close> after \<^verbatim>\<open>calories\<close>, with the provider's keys.\<close>

definition nutrient_fields :: "(string \<times> string) list" where
  "nutrient_fields =
     [(''protein'', ''PROCNT''), (''fat'', ''FAT''), (''carbs'', ''CHOCDF''),
      (''fiber'', ''FIBTG''), (''sugar'', ''SUGAR''), (''sodium'', ''NA''),
      (''cholesterol'', ''CHOLE''), (''calcium'', ''CA''), (''iron'', ''FE''),
      (''magnesium'', ''MG''), (''potassium'', ''K''), (''zinc'', ''ZN''),
      (''phosphorus'', ''P''), (''vitaminA'', ''VITA_RAE''), (''vitaminC'', ''VITC''),
      (''thiaminB1'', ''THIA''), (''riboflavinB2'', ''RIBF''), (''niacinB3'', ''NIA''),
      (''vitaminB6'', ''VITB6A''), (''vitaminB12'', ''VITB12''), (''vitaminD'', ''VITD''),
      (''vitaminE'', ''TOCPHA''), (''vitaminK'', ''VITK1'')]"

text \<open>The dict display evaluates its values from left to right.\<close>

fun collect :: "pyval \<Rightarrow> (string \<times> string) list \<Rightarrow> py_error + (string \<times> pyval) list" where
  "collect nutrients [] = Inr []"
| "collect nutrients ((name, key) # rest) =
     and_then (get_nutrient nutrients key) (\<lambda>x.
     and_then (collect nutrients rest) (\<lambda>xs. Inr ((name, num_val x) # xs)))"

definition format_nutrients :: "pyval \<Rightarrow> py_error + pyval" where
  "format_nutrients nutrients =
     and_then (get_nutrient nutrients ''ENERC_KCAL'') (\<lambda>c.
       let calories = py_int c in
       if calories = 0 then Inr PNone
       else and_then (collect nutrients nutrient_fields) (\<lambda>fs.
         Inr (PDict [(''nutritionPer100g'', PDict ((''calories'', PInt calories) # fs)),
                     (''allergens'', PList [])])))"

text \<open>A complete record: the dict that \<^verbatim>\<open>formatted_data\<close> is.\<close>

fun is_number :: "pyval \<Rightarrow> bool" where
  "is_number (PInt n) = True"
| "is_number (PFloat q) = True"
| "is_number _ = False"

definition field_names :: "string list" where
  "field_names = ''calories'' # map fst nutrient_fields"

definition is_record :: "pyval \<Rightarrow> bool" where
  "is_record v =
     (case v of
        PDict kvs \<Rightarrow>
          map fst kvs = [''nutritionPer100g'', ''allergens'']
          \<and> (case map_of kvs ''nutritionPer100g'' of
                Some (PDict fs) \<Rightarrow>
                  map fst fs = field_names \<and> list_all (\<lambda>kv. is_number (snd kv)) fs
              | _ \<Rightarrow> False)
          \<and> map_of kvs ''allergens'' = Some (PList [])
      | _ \<Rightarrow> False)"

definition read_response :: "pyval \<Rightarrow> py_error + pyval" where
  "read_response data =
     and_then (parse_nutrients data) (\<lambda>parsed.
       case parsed of
         None \<Rightarrow> Inr PNone
       | Some nutrients \<Rightarrow> if \<not> truthy nutrients then Inr PNone else format_nutrients nutrients)"

text \<open>
  The function returns its value (\<open>PNone\<close> or the formatted dict) or raises, and
  makes the posts listed beside it.
\<close>

definition get_nutrition_data_from_api ::
    "config \<Rightarrow> (post \<Rightarrow> http_result) \<Rightarrow> string \<Rightarrow> (py_error + pyval) \<times> post list" where
  "get_nutrition_data_from_api cfg net food_name =
     (if APP_ID cfg = Some ''EDAMAM_APP_ID'' \<or> APP_KEY cfg = Some ''EDAMAM_APP_KEY''
      then (Inr PNone, [])
      else let p = api_post cfg food_name in
        (case net p of
           RequestFailed \<Rightarrow> Inr PNone
         | Responded data \<Rightarrow> read_response data,
         [p]))"

section \<open>The cache and its file\<close>

text \<open>
  What \<^verbatim>\<open>data/nutrition_db.json\<close> is when it is opened: not there, not JSON, not
  readable at all, or a JSON document.
\<close>

datatype disk = Missing | Malformed | Unreadable | Stored pyval

record state =
  nutrition_db :: pyval
  db_file :: disk

text \<open>
  The load at start: FileNotFoundError and JSONDecodeError are caught, anything
  else ends the process; \<^verbatim>\<open>len\<close> of the loaded value is taken inside the
  \<^verbatim>\<open>try\<close>.
\<close>

definition load_db :: "disk \<Rightarrow> py_error + pyval" where
  "load_db d =
     (case d of
        Missing \<Rightarrow> Inr (PDict [])
      | Malformed \<Rightarrow> Inr (PDict [])
      | Unreadable \<Rightarrow> Inl OSError
      | Stored v \<Rightarrow> and_then (py_len v) (\<lambda>n. Inr v))"

definition startup :: "disk \<Rightarrow> py_error + state" where
  "startup d = and_then (load_db d) (\<lambda>v. Inr \<lparr>nutrition_db = v, db_file = d\<rparr>)"

text \<open>
  \<^verbatim>\<open>open(DB_FILE_PATH, 'w')\<close> and \<^verbatim>\<open>json.dump\<close>: both succeed, or the open
  fails and the file is as before, or the dump fails after the open has emptied
  the file. The IOError is caught and printed.
\<close>

datatype write_result = Written | OpenFailed | DumpFailed

fun write_db :: "write_result \<Rightarrow> pyval \<Rightarrow> disk \<Rightarrow> disk" where
  "write_db Written db d = Stored db"
| "write_db OpenFailed db d = d"
| "write_db DumpFailed db d = Malformed"

section \<open>The endpoint\<close>

record prediction =
  label :: string
  confidence :: rat

text \<open>
  What is outside the function during one request: the classifier
  (\<^verbatim>\<open>predict_image\<close> with its model), the provider's answer to a post, and the
  fate of a write to the file.
\<close>

record 'img world =
  predict_image :: "'img \<Rightarrow> py_error + prediction list"
  edamam :: "post \<Rightarrow> http_result"
  disk_write :: write_result

datatype reply =
    Analysis "prediction list" pyval pyval
  | Error string nat

datatype event = ApiCall string | HttpPost post

definition failed :: reply where
  "failed = Error ''Failed to analyze image'' 500"

text \<open>The \<^verbatim>\<open>response\<close> dict; \<^verbatim>\<open>.get\<close> on a value that is no dict raises.\<close>

definition respond :: "prediction list \<Rightarrow> pyval \<Rightarrow> reply" where
  "respond predictions nutrition_data =
     (if truthy nutrition_data then
        (case get_method nutrition_data ''nutritionPer100g'' PNone of
           Inl e \<Rightarrow> failed
         | Inr n \<Rightarrow>
           (case get_method nutrition_data ''allergens'' PNone of
              Inl e \<Rightarrow> failed
            | Inr a \<Rightarrow> Analysis predictions n a))
      else Analysis predictions PNone (PList []))"

definition analyze ::
    "config \<Rightarrow> 'img world \<Rightarrow> 'img option \<Rightarrow> state \<Rightarrow> reply \<times> state \<times> event list" where
  "analyze cfg w img s =
     (case img of
        None \<Rightarrow> (Error ''No image file provided'' 400, s, [])
      | Some file \<Rightarrow>
        (case predict_image w file of
           Inl e \<Rightarrow> (failed, s, [])
         | Inr predictions \<Rightarrow>
           (case predictions of
              [] \<Rightarrow> (failed, s, [])
            | p # _ \<Rightarrow>
              let top_prediction_label = label p in
              (case py_contains top_prediction_label (nutrition_db s) of
                 Inl e \<Rightarrow> (failed, s, [])
               | Inr True \<Rightarrow>
                 (case getitem_str (nutrition_db s) top_prediction_label of
                    Inl e \<Rightarrow> (failed, s, [])
                  | Inr nutrition_data \<Rightarrow> (respond predictions nutrition_data, s, []))
               | Inr False \<Rightarrow>
                 (let (r, posts) = get_nutrition_data_from_api cfg (edamam w) top_prediction_label;
                      evs = ApiCall top_prediction_label # map HttpPost posts
                  in case r of
                       Inl e \<Rightarrow> (failed, s, evs)
                     | Inr nutrition_data \<Rightarrow>
                       if truthy nutrition_data then
                         (case setitem (nutrition_db s) top_prediction_label nutrition_data of
                            Inl e \<Rightarrow> (failed, s, evs)
                          | Inr db \<Rightarrow>
                            (respond predictions nutrition_data,
                             \<lparr>nutrition_db = db, db_file = write_db (disk_write w) db (db_file s)\<rparr>,
                             evs))
                       else (respond predictions nutrition_data, s, evs))))))"

text \<open>A process serving requests one after the other.\<close>

fun serve ::
    "config \<Rightarrow> state \<Rightarrow> ('img world \<times> 'img option) list \<Rightarrow> (reply \<times> event list) list \<times> state" where
  "serve cfg s [] = ([], s)"
| "serve cfg s ((w, img) # rest) =
     (case analyze cfg w img s of
        (r, s', evs) \<Rightarrow> (case serve cfg s' rest of (out, s'') \<Rightarrow> ((r, evs) # out, s'')))"

text \<open>The calls of \<^verbatim>\<open>get_nutrition_data_from_api\<close> and the posts among the events.\<close>

fun api_calls :: "event list \<Rightarrow> string list" where
  "api_calls [] = []"
| "api_calls (ApiCall l # evs) = l # api_calls evs"
| "api_calls (HttpPost p # evs) = api_calls evs"

fun http_posts :: "event list \<Rightarrow> post list" where
  "http_posts [] = []"
| "http_posts (ApiCall l # evs) = http_posts evs"
| "http_posts (HttpPost p # evs) = p # http_posts evs"

section \<open>Requests served by threads\<close>

text \<open>
  The server runs \<^verbatim>\<open>analyze\<close> in one thread for each request. The threads share
  \<^verbatim>\<open>nutrition_db\<close>, the store file and \<^verbatim>\<open>db_lock\<close>; a thread touches them in the
  membership test, the read of a cached value, and, holding the lock, the store
  into the dict and the dump. A thread is at one of these points, with its local
  variables \<^verbatim>\<open>predictions\<close> and \<^verbatim>\<open>nutrition_data\<close>, and each of them is one
  step: a single operation on a dict is not interrupted by another thread, and
  the file is written by the holder of the lock only. \<^verbatim>\<open>with db_lock\<close> waits
  until no thread holds the lock, and gives it back when the block is left, also
  by an exception. The steps of the threads follow one another in any order.
\<close>

datatype pc =
    Start
  | Hit "prediction list"
  | Miss "prediction list"
  | Acquire "prediction list" pyval
  | Store "prediction list" pyval
  | Dump "prediction list" pyval
  | Release "prediction list" pyval
  | Done reply

definition thread_step ::
    "config \<Rightarrow> 'img world \<times> 'img option \<Rightarrow> nat \<Rightarrow> pc \<times> state \<times> nat option
       \<Rightarrow> (pc \<times> state \<times> nat option) option" where
  "thread_step cfg req tid c =
     (case (req, c) of ((w, img), (pt, s, lock)) \<Rightarrow>
       (case pt of
          Start \<Rightarrow>
            (case img of
               None \<Rightarrow> Some (Done (Error ''No image file provided'' 400), s, lock)
             | Some file \<Rightarrow>
               (case predict_image w file of
                  Inl e \<Rightarrow> Some (Done failed, s, lock)
                | Inr predictions \<Rightarrow>
                  (case predictions of
                     [] \<Rightarrow> Some (Done failed, s, lock)
                   | p # _ \<Rightarrow>
                     (case py_contains (label p) (nutrition_db s) of
                        Inl e \<Rightarrow> Some (Done failed, s, lock)
                      | Inr True \<Rightarrow> Some (Hit predictions, s, lock)
                      | Inr False \<Rightarrow> Some (Miss predictions, s, lock)))))
        | Hit predictions \<Rightarrow>
            (case getitem_str (nutrition_db s) (label (hd predictions)) of
               Inl e \<Rightarrow> Some (Done failed, s, lock)
             | Inr nutrition_data \<Rightarrow> Some (Done (respond predictions nutrition_data), s, lock))
        | Miss predictions \<Rightarrow>
            (case fst (get_nutrition_data_from_api cfg (edamam w) (label (hd predictions))) of
               Inl e \<Rightarrow> Some (Done failed, s, lock)
             | Inr nutrition_data \<Rightarrow>
               if truthy nutrition_data then Some (Acquire predictions nutrition_data, s, lock)
               else Some (Done (respond predictions nutrition_data), s, lock))
        | Acquire predictions nutrition_data \<Rightarrow>
            (if lock = None then Some (Store predictions nutrition_data, s, Some tid) else None)
        | Store predictions nutrition_data \<Rightarrow>
            (case setitem (nutrition_db s) (label (hd predictions)) nutrition_data of
               Inl e \<Rightarrow> Some (Done failed, s, None)
             | Inr db \<Rightarrow> Some (Dump predictions nutrition_data, s\<lparr>nutrition_db := db\<rparr>, lock))
        | Dump predictions nutrition_data \<Rightarrow>
            Some (Release predictions nutrition_data,
                  s\<lparr>db_file := write_db (disk_write w) (nutrition_db s) (db_file s)\<rparr>, lock)
        | Release predictions nutrition_data \<Rightarrow>
            Some (Done (respond predictions nutrition_data), s, None)
        | Done r \<Rightarrow> None))"

text \<open>Any thread that can move may be the next to move.\<close>

inductive step ::
    "config \<Rightarrow> ('img world \<times> 'img option) list \<Rightarrow> pc list \<times> state \<times> nat option
       \<Rightarrow> pc list \<times> state \<times> nat option \<Rightarrow> bool"
  for cfg :: config and rs :: "('img world \<times> 'img option) list" where
  "tid < length rs \<Longrightarrow> tid < length pcs \<Longrightarrow>
   thread_step cfg (rs ! tid) tid (pcs ! tid, s, lock) = Some (pt', s', lock') \<Longrightarrow>
   step cfg rs (pcs, s, lock) (pcs[tid := pt'], s', lock')"

text \<open>The threads taking turns as a list of thread numbers says.\<close>

fun run_schedule ::
    "config \<Rightarrow> ('img world \<times> 'img option) list \<Rightarrow> nat list
       \<Rightarrow> pc list \<times> state \<times> nat option \<Rightarrow> (pc list \<times> state \<times> nat option) option" where
  "run_schedule cfg rs [] c = Some c"
| "run_schedule cfg rs (tid # sched) c =
     (case c of (pcs, s, lock) \<Rightarrow>
        if tid < length rs \<and> tid < length pcs then
          (case thread_step cfg (rs ! tid) tid (pcs ! tid, s, lock) of
             None \<Rightarrow> None
           | Some (pt', s', lock') \<Rightarrow> run_schedule cfg rs sched (pcs[tid := pt'], s', lock'))
        else None)"









section \<open>The invariant of the cache\<close>

text \<open>
  A store file that this program can have left behind: none, one that a failed
  dump cut short, or a snapshot whose values are all complete records.
\<close>

definition cache_ok :: "(string \<times> pyval) list \<Rightarrow> bool" where
  "cache_ok kvs = list_all (\<lambda>kv. is_record (snd kv)) kvs"

definition disk_ok :: "disk \<Rightarrow> bool" where
  "disk_ok d =
     (case d of
        Missing \<Rightarrow> True
      | Malformed \<Rightarrow> True
      | Unreadable \<Rightarrow> False
      | Stored v \<Rightarrow> (case v of PDict kvs \<Rightarrow> cache_ok kvs | _ \<Rightarrow> False))"

text \<open>
  Some request of the list had the label on top and its call of
  \<^verbatim>\<open>get_nutrition_data_from_api\<close> returned the value.
\<close>

definition fetched_in ::
    "config \<Rightarrow> ('img world \<times> 'img option) list \<Rightarrow> string \<Rightarrow> pyval \<Rightarrow> bool" where
  "fetched_in cfg rs k v =
     list_ex (\<lambda>(w, img).
       case img of
         None \<Rightarrow> False
       | Some i \<Rightarrow>
         (case predict_image w i of
            Inr (p # ps) \<Rightarrow>
              label p = k \<and> fst (get_nutrition_data_from_api cfg (edamam w) k) = Inr v
          | _ \<Rightarrow> False)) rs"

section \<open>Example data\<close>

text \<open>
  A configuration with both credentials set, a classifier output for a picture of a
  pizza, and bodies of the shape the provider sends: 266 kcal and 11.375 g of
  protein for the pizza, 0.9 kcal (the double next to it) for a broth.
\<close>

definition example_cfg :: config where
  "example_cfg = \<lparr>APP_ID = Some ''app-id'', APP_KEY = Some ''app-key''\<rparr>"

definition top3 :: "prediction list" where
  "top3 = [\<lparr>label = ''Pizza'', confidence = 7 / 8\<rparr>,
           \<lparr>label = ''Lasagna'', confidence = 1 / 16\<rparr>,
           \<lparr>label = ''Garlic Bread'', confidence = 1 / 32\<rparr>]"

definition body_of :: "(string \<times> pyval) list \<Rightarrow> pyval" where
  "body_of nutrients =
     PDict [(''uri'', PStr ''http://www.edamam.com/ontologies/edamam.owl''),
            (''ingredients'',
             PList [PDict [(''parsed'', PList [PDict [(''weight'', PFloat 100),
                                                      (''nutrients'', PDict nutrients)]])]])]"

definition entry :: "string \<Rightarrow> pyval \<Rightarrow> string \<Rightarrow> pyval" where
  "entry name q unit = PDict [(''label'', PStr name), (''quantity'', q), (''unit'', PStr unit)]"

definition pizza_nutrients :: "(string \<times> pyval) list" where
  "pizza_nutrients = [(''ENERC_KCAL'', entry ''Energy'' (PFloat 266) ''kcal''),
                      (''PROCNT'', entry ''Protein'' (PFloat (91 / 8)) ''g'')]"

definition pizza_body :: pyval where
  "pizza_body = body_of pizza_nutrients"

definition broth_nutrients :: "(string \<times> pyval) list" where
  "broth_nutrients =
     [(''ENERC_KCAL'',
       entry ''Energy'' (PFloat (8106479329266893 / 9007199254740992)) ''kcal''),
      (''PROCNT'', entry ''Protein'' (PFloat (1 / 8)) ''g'')]"

definition broth_body :: pyval where
  "broth_body = body_of broth_nutrients"

definition pizza_nutrition :: pyval where
  "pizza_nutrition =
     PDict ((''calories'', PInt 266) # (''protein'', PFloat (57 / 5))
            # map (\<lambda>(name, key). (name, PInt 0)) (tl nutrient_fields))"

definition pizza_record :: pyval where
  "pizza_record = PDict [(''nutritionPer100g'', pizza_nutrition), (''allergens'', PList [])]"

definition negative_body :: pyval where
  "negative_body = body_of [(''ENERC_KCAL'', entry ''Energy'' (PFloat (- 5)) ''kcal'')]"

definition negative_record :: pyval where
  "negative_record =
     PDict [(''nutritionPer100g'',
             PDict ((''calories'', PInt (- 5))
                    # map (\<lambda>(name, key). (name, PInt 0)) nutrient_fields)),
            (''allergens'', PList [])]"

definition unset_cfg :: config where
  "unset_cfg = \<lparr>APP_ID = None, APP_KEY = Some ''app-key''\<rparr>"

definition example_world :: "http_result \<Rightarrow> write_result \<Rightarrow> unit world" where
  "example_world answer wr =
     \<lparr>predict_image = \<lambda>_. Inr top3, edamam = \<lambda>_. answer, disk_write = wr\<rparr>"

definition empty_state :: state where
  "empty_state = \<lparr>nutrition_db = PDict [], db_file = Missing\<rparr>"

definition pizza_state :: state where
  "pizza_state = \<lparr>nutrition_db = PDict [(''Pizza'', pizza_record)],
                   db_file = Stored (PDict [(''Pizza'', pizza_record)])\<rparr>"










section \<open>Basic facts\<close>

lemma map_of_dict_set: "map_of (dict_set k v kvs) = (map_of kvs)(k \<mapsto> v)"
  by (induction kvs) (auto simp: fun_eq_iff)

lemma dict_set_absent: "map_of kvs k = None \<Longrightarrow> dict_set k v kvs = kvs @ [(k, v)]"
  by (induction kvs) (auto split: if_splits)

lemma api_calls_posts [simp]: "api_calls (map HttpPost ps) = []"
  by (induction ps) simp_all

lemma http_posts_posts [simp]: "http_posts (map HttpPost ps) = ps"
  by (induction ps) simp_all

lemma analyze_hit:
  assumes "nutrition_db s = PDict kvs" and "map_of kvs (label p) = Some v"
    and "predict_image w img = Inr (p # ps)"
  shows "analyze cfg w (Some img) s = (respond (p # ps) v, s, [])"
  using assms by (simp add: analyze_def)

lemma analyze_miss:
  assumes "py_contains (label p) (nutrition_db s) = Inr False"
    and "predict_image w img = Inr (p # ps)"
    and "get_nutrition_data_from_api cfg (edamam w) (label p) = (r, posts)"
  shows "analyze cfg w (Some img) s =
     (case r of
        Inl e \<Rightarrow> (failed, s, ApiCall (label p) # map HttpPost posts)
      | Inr nutrition_data \<Rightarrow>
          if truthy nutrition_data then
            (case setitem (nutrition_db s) (label p) nutrition_data of
               Inl e \<Rightarrow> (failed, s, ApiCall (label p) # map HttpPost posts)
             | Inr db \<Rightarrow>
               (respond (p # ps) nutrition_data,
                \<lparr>nutrition_db = db, db_file = write_db (disk_write w) db (db_file s)\<rparr>,
                ApiCall (label p) # map HttpPost posts))
          else (respond (p # ps) nutrition_data, s, ApiCall (label p) # map HttpPost posts))"
  using assms by (simp add: analyze_def Let_def)

lemma analyze_cases:
  assumes "nutrition_db s = PDict kvs" and "analyze cfg w img s = (r, s', evs)"
  shows "s' = s \<or>
    (\<exists>i p ps v. img = Some i \<and> predict_image w i = Inr (p # ps) \<and> map_of kvs (label p) = None
       \<and> fst (get_nutrition_data_from_api cfg (edamam w) (label p)) = Inr v \<and> truthy v
       \<and> s' = \<lparr>nutrition_db = PDict (dict_set (label p) v kvs),
               db_file = write_db (disk_write w) (PDict (dict_set (label p) v kvs)) (db_file s)\<rparr>)"
  using assms
  by (auto simp: analyze_def Let_def
      split: option.splits sum.splits list.splits bool.splits prod.splits if_splits)

lemma collect_names: "collect nutrients fl = Inr fs \<Longrightarrow> map fst fs = map fst fl"
  by (induction fl arbitrary: fs) (auto simp: and_then_def split: sum.splits)

lemma is_number_num_val: "is_number (num_val x)"
  by (cases x) simp_all

lemma collect_numbers:
  "collect nutrients fl = Inr fs \<Longrightarrow> list_all (\<lambda>kv. is_number (snd kv)) fs"
  by (induction fl arbitrary: fs) (auto simp: and_then_def is_number_num_val split: sum.splits)

lemma format_nutrients_shape:
  assumes "format_nutrients nutrients = Inr v"
  shows "v = PNone \<or> is_record v"
  using assms
  by (auto simp: format_nutrients_def and_then_def Let_def is_record_def field_names_def
      split: sum.splits if_splits dest: collect_names collect_numbers)

lemma fetch_shape:
  assumes "fst (get_nutrition_data_from_api cfg net food_name) = Inr v"
  shows "v = PNone \<or> is_record v"
  using assms
  by (auto simp: get_nutrition_data_from_api_def read_response_def and_then_def Let_def
      split: if_splits http_result.splits sum.splits option.splits dest: format_nutrients_shape)

lemma is_record_truthy: "is_record v \<Longrightarrow> truthy v"
  by (auto simp: is_record_def split: pyval.splits)

section \<open>The start of the process\<close>




section \<open>A label that is in the cache\<close>

text \<open>
  C1. When the top label of a request is a key of the cache, the request calls
  neither \<^verbatim>\<open>get_nutrition_data_from_api\<close> nor the network (no event), the cache
  and the store file stay as they were, and the \<^verbatim>\<open>nutritionPer100g\<close> and
  \<^verbatim>\<open>allergens\<close> of the response are those of the stored record.
\<close>

theorem cache_hit_returns_stored_record:
  assumes "nutrition_db s = PDict kvs"
    and "map_of kvs (label p) = Some v"
    and "predict_image w img = Inr (p # ps)"
  shows "snd (analyze cfg w (Some img) s) = (s, [])
    \<and> (\<forall>fields n a. v = PDict fields \<and> map_of fields ''nutritionPer100g'' = Some n
          \<and> map_of fields ''allergens'' = Some a
        \<longrightarrow> fst (analyze cfg w (Some img) s) = Analysis (p # ps) n a)"
  using assms by (auto simp: analyze_hit respond_def)

theorem cache_hit_witness:
  "snd (analyze example_cfg (example_world RequestFailed OpenFailed) (Some ()) pizza_state)
     = (pizza_state, [])
   \<and> fst (analyze example_cfg (example_world RequestFailed OpenFailed) (Some ()) pizza_state)
     = Analysis top3 pizza_nutrition (PList [])"
proof -
  have h1: "nutrition_db pizza_state = PDict [(''Pizza'', pizza_record)]"
    by (simp add: pizza_state_def)
  have h2: "map_of [(''Pizza'', pizza_record)] (label (hd top3)) = Some pizza_record"
    by (simp add: top3_def)
  have h3: "predict_image (example_world RequestFailed OpenFailed) () = Inr (hd top3 # tl top3)"
    by (simp add: example_world_def top3_def)
  from cache_hit_returns_stored_record [OF h1 h2 h3, of example_cfg]
  show ?thesis by (simp add: pizza_record_def top3_def)
qed

section \<open>A label that is not in the cache\<close>

text \<open>
  C2. When the top label of a request is not in the cache, the request calls
  \<^verbatim>\<open>get_nutrition_data_from_api\<close> exactly once, with the top label; the labels
  ranked below it play no part. At most one post goes to the network (none when a
  credential is the placeholder), for the top label in lower case: there is no
  second attempt.
\<close>

theorem cache_miss_one_provider_call:
  assumes "py_contains (label p) (nutrition_db s) = Inr False"
    and "predict_image w img = Inr (p # ps)"
  shows "api_calls (snd (snd (analyze cfg w (Some img) s))) = [label p]
    \<and> http_posts (snd (snd (analyze cfg w (Some img) s))) =
        (if APP_ID cfg = Some ''EDAMAM_APP_ID'' \<or> APP_KEY cfg = Some ''EDAMAM_APP_KEY'' then []
         else [api_post cfg (label p)])"
proof -
  obtain r posts where f: "get_nutrition_data_from_api cfg (edamam w) (label p) = (r, posts)"
    by (cases "get_nutrition_data_from_api cfg (edamam w) (label p)")
  have evs: "snd (snd (analyze cfg w (Some img) s)) = ApiCall (label p) # map HttpPost posts"
    by (simp add: analyze_miss [OF assms f] split: sum.splits)
  have "posts = (if APP_ID cfg = Some ''EDAMAM_APP_ID'' \<or> APP_KEY cfg = Some ''EDAMAM_APP_KEY''
                 then [] else [api_post cfg (label p)])"
    using f by (auto simp: get_nutrition_data_from_api_def Let_def split: if_splits)
  with evs show ?thesis by simp
qed

theorem cache_miss_witness:
  "api_calls (snd (snd (analyze example_cfg (example_world RequestFailed Written) (Some ())
      empty_state))) = [''Pizza'']
   \<and> http_posts (snd (snd (analyze example_cfg (example_world RequestFailed Written) (Some ())
      empty_state))) = [api_post example_cfg ''Pizza'']"
proof -
  have h1: "py_contains (label (hd top3)) (nutrition_db empty_state) = Inr False"
    by (simp add: empty_state_def)
  have h2: "predict_image (example_world RequestFailed Written) () = Inr (hd top3 # tl top3)"
    by (simp add: example_world_def top3_def)
  from cache_miss_one_provider_call [OF h1 h2, of example_cfg]
  show ?thesis by (simp add: top3_def example_cfg_def)
qed

section \<open>A successful fetch\<close>

lemma is_record_fields:
  assumes "is_record v"
  obtains fs where "v = PDict [(''nutritionPer100g'', PDict fs), (''allergens'', PList [])]"
    and "map fst fs = field_names" and "list_all (\<lambda>kv. is_number (snd kv)) fs"
proof -
  from assms obtain kvs where v: "v = PDict kvs" by (auto simp: is_record_def split: pyval.splits)
  from assms v have k: "map fst kvs = [''nutritionPer100g'', ''allergens'']"
    by (simp add: is_record_def)
  then obtain x y where kvs: "kvs = [(''nutritionPer100g'', x), (''allergens'', y)]"
    by (cases kvs; cases "tl kvs"; cases "tl (tl kvs)") auto
  from assms v kvs obtain fs where "x = PDict fs" "map fst fs = field_names"
      "list_all (\<lambda>kv. is_number (snd kv)) fs" "y = PList []"
    by (auto simp: is_record_def split: pyval.splits option.splits)
  with v kvs that show thesis by blast
qed

text \<open>
  C3. After a miss whose fetch returns a record, the record is in the cache when
  the response is made: the cache is the old one with the new entry at its end,
  reading the label gives the record, the response carries the record's fields,
  and any later request with that top label is answered from the cache, with no
  event and no change. When the write succeeds the store file holds the whole
  cache, whatever it held before.
\<close>

theorem fetched_record_is_cached_and_persisted:
  fixes w :: "'img world"
  assumes db: "nutrition_db s = PDict kvs"
    and miss: "map_of kvs (label p) = None"
    and pred: "predict_image w img = Inr (p # ps)"
    and fetch: "fst (get_nutrition_data_from_api cfg (edamam w) (label p)) = Inr v"
    and ok: "truthy v"
    and run: "analyze cfg w (Some img) s = (r, s', evs)"
  shows "nutrition_db s' = PDict (kvs @ [(label p, v)])
    \<and> getitem_str (nutrition_db s') (label p) = Inr v
    \<and> (disk_write w = Written \<longrightarrow> db_file s' = Stored (nutrition_db s'))
    \<and> (\<exists>n. get_method v ''nutritionPer100g'' PNone = Inr n \<and> n \<noteq> PNone
           \<and> r = Analysis (p # ps) n (PList [])
           \<and> (\<forall>(w2 :: 'img world) img2 p2 ps2.
                predict_image w2 img2 = Inr (p2 # ps2) \<and> label p2 = label p
                \<longrightarrow> analyze cfg w2 (Some img2) s' = (Analysis (p2 # ps2) n (PList []), s', [])))"
proof -
  obtain posts where f: "get_nutrition_data_from_api cfg (edamam w) (label p) = (Inr v, posts)"
    using fetch by (cases "get_nutrition_data_from_api cfg (edamam w) (label p)") simp
  have c: "py_contains (label p) (nutrition_db s) = Inr False"
    using db miss by simp
  have r: "r = respond (p # ps) v"
    and s': "s' = \<lparr>nutrition_db = PDict (kvs @ [(label p, v)]),
                  db_file = write_db (disk_write w) (PDict (kvs @ [(label p, v)])) (db_file s)\<rparr>"
    using run ok db by (simp_all add: analyze_miss [OF c pred f] dict_set_absent [OF miss])
  have rec: "is_record v"
    using fetch_shape [OF fetch] ok by auto
  then obtain fs where v: "v = PDict [(''nutritionPer100g'', PDict fs), (''allergens'', PList [])]"
    by (rule is_record_fields)
  have resp: "respond preds v = Analysis preds (PDict fs) (PList [])" for preds
    by (simp add: v respond_def)
  have look: "map_of (kvs @ [(label p, v)]) (label p) = Some v"
    using miss by (simp add: map_add_def)
  have later: "analyze cfg w2 (Some img2) s' = (Analysis (p2 # ps2) (PDict fs) (PList []), s', [])"
    if "predict_image w2 img2 = Inr (p2 # ps2)" "label p2 = label p"
    for w2 :: "'img world" and img2 p2 ps2
    using analyze_hit [of s' "kvs @ [(label p, v)]" p2 v w2 img2 ps2 cfg] that look
    by (simp add: s' resp)
  have c1: "nutrition_db s' = PDict (kvs @ [(label p, v)])" by (simp add: s')
  have c2: "getitem_str (nutrition_db s') (label p) = Inr v"
    unfolding c1 getitem_str.simps look by simp
  have c3: "disk_write w = Written \<longrightarrow> db_file s' = Stored (nutrition_db s')" by (simp add: s')
  have c4: "get_method v ''nutritionPer100g'' PNone = Inr (PDict fs)" by (simp add: v)
  have c5: "r = Analysis (p # ps) (PDict fs) (PList [])" by (simp only: r resp)
  have c6: "PDict fs \<noteq> PNone" by simp
  have "\<exists>n. get_method v ''nutritionPer100g'' PNone = Inr n \<and> n \<noteq> PNone
           \<and> r = Analysis (p # ps) n (PList [])
           \<and> (\<forall>(w2 :: 'img world) img2 p2 ps2.
                predict_image w2 img2 = Inr (p2 # ps2) \<and> label p2 = label p
                \<longrightarrow> analyze cfg w2 (Some img2) s' = (Analysis (p2 # ps2) n (PList []), s', []))"
    using c4 c5 c6 later by (intro exI [of _ "PDict fs"]) simp
  with c1 c2 c3 show ?thesis by (intro conjI)
qed

theorem fetched_record_witness:
  "nutrition_db (fst (snd (analyze example_cfg (example_world (Responded pizza_body) Written)
       (Some ()) empty_state))) = PDict [(''Pizza'', pizza_record)]
   \<and> db_file (fst (snd (analyze example_cfg (example_world (Responded pizza_body) Written)
       (Some ()) empty_state))) = Stored (PDict [(''Pizza'', pizza_record)])
   \<and> analyze example_cfg (example_world RequestFailed OpenFailed) (Some ())
       (fst (snd (analyze example_cfg (example_world (Responded pizza_body) Written)
          (Some ()) empty_state)))
     = (Analysis top3 pizza_nutrition (PList []),
        fst (snd (analyze example_cfg (example_world (Responded pizza_body) Written)
          (Some ()) empty_state)), [])"
proof -
  let ?w = "example_world (Responded pizza_body) Written"
  let ?a = "analyze example_cfg ?w (Some ()) empty_state"
  have h1: "nutrition_db empty_state = PDict []" by (simp add: empty_state_def)
  have h2: "map_of [] (label (hd top3)) = (None :: pyval option)" by simp
  have h3: "predict_image ?w () = Inr (hd top3 # tl top3)"
    by (simp add: example_world_def top3_def)
  have h4: "fst (get_nutrition_data_from_api example_cfg (edamam ?w) (label (hd top3)))
      = Inr pizza_record"
    by code_simp
  have h5: "truthy pizza_record" by (simp add: pizza_record_def)
  have h6: "?a = (fst ?a, fst (snd ?a), snd (snd ?a))" by simp
  have h7: "disk_write ?w = Written" by (simp add: example_world_def)
  have h8: "predict_image (example_world RequestFailed OpenFailed) () = Inr (hd top3 # tl top3)"
    by (simp add: example_world_def top3_def)
  have h9: "get_method pizza_record ''nutritionPer100g'' PNone = Inr pizza_nutrition"
    by (simp add: pizza_record_def)
  have h10: "hd top3 # tl top3 = top3" "label (hd top3) = ''Pizza''" by (simp_all add: top3_def)
  note inst = fetched_record_is_cached_and_persisted [OF h1 h2 h3 h4 h5 h6]
  have c1: "nutrition_db (fst (snd ?a)) = PDict [(''Pizza'', pizza_record)]"
    using inst [THEN conjunct1] by (simp only: h10 append_Nil)
  have c3: "db_file (fst (snd ?a)) = Stored (PDict [(''Pizza'', pizza_record)])"
    using inst [THEN conjunct2, THEN conjunct2, THEN conjunct1, rule_format, OF h7]
    by (simp only: c1)
  from inst [THEN conjunct2, THEN conjunct2, THEN conjunct2]
  obtain n where n: "get_method pizza_record ''nutritionPer100g'' PNone = Inr n"
    and later: "\<forall>(w2 :: unit world) img2 p2 ps2. predict_image w2 img2 = Inr (p2 # ps2) \<and> label p2 = label (hd top3)
          \<longrightarrow> analyze example_cfg w2 (Some img2) (fst (snd ?a))
              = (Analysis (p2 # ps2) n (PList []), fst (snd ?a), [])"
    by (elim exE conjE)
  from n h9 have n': "n = pizza_nutrition" by simp
  have c4: "analyze example_cfg (example_world RequestFailed OpenFailed) (Some ()) (fst (snd ?a))
      = (Analysis top3 pizza_nutrition (PList []), fst (snd ?a), [])"
    using later [rule_format, of "example_world RequestFailed OpenFailed" "()" "hd top3" "tl top3"] h8
    by (simp only: n' h10 simp_thms)
  from c1 c3 c4 show ?thesis by (intro conjI)
qed

section \<open>A failed fetch\<close>

lemma edamam_example_world: "edamam (example_world answer wr) = (\<lambda>_. answer)"
  by (simp add: example_world_def)

lemma predict_example_world: "predict_image (example_world answer wr) i = Inr top3"
  by (simp add: example_world_def)

text \<open>
  C4, as the code has it. While the cache does not have a label, every request
  with that top label whose fetch does not give a record, be it that it returns
  \<open>None\<close> or that it raises, leaves the cache and the store file as they were; so
  each of these requests, however many follow one another, calls
  \<^verbatim>\<open>get_nutrition_data_from_api\<close> again, once. When the fetch returns \<open>None\<close> (a
  failed request, a body without the expected keys or entries, no nutrients, zero
  calories, a placeholder credential) the request gets its predictions with a
  null \<^verbatim>\<open>nutritionPer100g\<close> and no allergens.
\<close>

theorem failed_fetch_not_cached:
  assumes miss: "py_contains L (nutrition_db s) = Inr False"
    and fails: "\<forall>(w, img) \<in> set rs. \<exists>i p ps. img = Some i \<and> predict_image w i = Inr (p # ps)
        \<and> label p = L
        \<and> (fst (get_nutrition_data_from_api cfg (edamam w) L) = Inr PNone
             \<or> (\<exists>e. fst (get_nutrition_data_from_api cfg (edamam w) L) = Inl e))"
  shows "snd (serve cfg s rs) = s
    \<and> list_all2 (\<lambda>(w, img) (r, evs). api_calls evs = [L]
          \<and> (fst (get_nutrition_data_from_api cfg (edamam w) L) = Inr PNone
               \<longrightarrow> (\<exists>i preds. img = Some i \<and> predict_image w i = Inr preds
                      \<and> r = Analysis preds PNone (PList []))))
        rs (fst (serve cfg s rs))"
  using fails
proof (induction rs)
  case Nil
  then show ?case by simp
next
  case (Cons a rs)
  obtain w img where a: "a = (w, img)" by (cases a)
  from Cons.prems a obtain i p ps where i: "img = Some i" and pred: "predict_image w i = Inr (p # ps)"
    and l: "label p = L"
    and f: "fst (get_nutrition_data_from_api cfg (edamam w) L) = Inr PNone
             \<or> (\<exists>e. fst (get_nutrition_data_from_api cfg (edamam w) L) = Inl e)"
    by auto
  obtain res posts where f': "get_nutrition_data_from_api cfg (edamam w) (label p) = (res, posts)"
    by (cases "get_nutrition_data_from_api cfg (edamam w) (label p)")
  have c: "py_contains (label p) (nutrition_db s) = Inr False" using miss l by simp
  have step: "\<exists>r. analyze cfg w (Some i) s = (r, s, ApiCall L # map HttpPost posts)
      \<and> (res = Inr PNone \<longrightarrow> r = Analysis (p # ps) PNone (PList []))"
    using f f' l by (auto simp: analyze_miss [OF c pred f'] respond_def)
  then obtain r where r: "analyze cfg w (Some i) s = (r, s, ApiCall L # map HttpPost posts)"
    and r': "res = Inr PNone \<longrightarrow> r = Analysis (p # ps) PNone (PList [])"
    by blast
  from Cons have ih: "snd (serve cfg s rs) = s"
    "list_all2 (\<lambda>(w, img) (r, evs). api_calls evs = [L]
          \<and> (fst (get_nutrition_data_from_api cfg (edamam w) L) = Inr PNone
               \<longrightarrow> (\<exists>i preds. img = Some i \<and> predict_image w i = Inr preds
                      \<and> r = Analysis preds PNone (PList []))))
        rs (fst (serve cfg s rs))"
    by auto
  show ?case
    using ih r' f' l by (cases "serve cfg s rs") (simp add: a r i pred)
qed

theorem failed_fetch_witness:
  "snd (serve example_cfg empty_state
         [(example_world RequestFailed Written, Some ()),
          (example_world (Responded broth_body) OpenFailed, Some ()),
          (example_world (Responded (PList [])) Written, Some ())]) = empty_state"
proof -
  have miss: "py_contains ''Pizza'' (nutrition_db empty_state) = Inr False"
    by (simp add: empty_state_def)
  have f1: "fst (get_nutrition_data_from_api example_cfg (\<lambda>_. RequestFailed) ''Pizza'') = Inr PNone"
    by code_simp
  have f2: "fst (get_nutrition_data_from_api example_cfg (\<lambda>_. Responded broth_body) ''Pizza'')
      = Inr PNone"
    by code_simp
  have f3: "fst (get_nutrition_data_from_api example_cfg (\<lambda>_. Responded (PList [])) ''Pizza'')
      = Inl TypeError"
    by code_simp
  have ex: "\<exists>i p ps. Some () = Some i \<and> predict_image (example_world answer wr) i = Inr (p # ps)
        \<and> label p = ''Pizza''" for answer wr
    by (simp add: predict_example_world top3_def)
  have fails: "\<forall>(w, img) \<in> set [(example_world RequestFailed Written, Some ()),
          (example_world (Responded broth_body) OpenFailed, Some ()),
          (example_world (Responded (PList [])) Written, Some ())].
      \<exists>i p ps. img = Some i \<and> predict_image w i = Inr (p # ps) \<and> label p = ''Pizza''
        \<and> (fst (get_nutrition_data_from_api example_cfg (edamam w) ''Pizza'') = Inr PNone
             \<or> (\<exists>e. fst (get_nutrition_data_from_api example_cfg (edamam w) ''Pizza'') = Inl e))"
    using ex by (simp add: edamam_example_world f1 f2 f3)
  from failed_fetch_not_cached [OF miss fails] show ?thesis by (rule conjunct1)
qed

text \<open>
  The sentence of C4 as it stands, "every request whose provider lookup fails":
  the provider answers with a body that is a JSON list. Subscripting it with
  \<^verbatim>\<open>'ingredients'\<close> raises a TypeError, which neither the inner \<^verbatim>\<open>except\<close> (IndexError,
  KeyError) nor the outer one (RequestException) catches; the handler of
  \<^verbatim>\<open>analyze\<close> answers with the general error, and the response has no predictions.
\<close>

theorem json_list_body_counterexample:
  "fst (get_nutrition_data_from_api example_cfg
        (edamam (example_world (Responded (PList [])) Written)) ''Pizza'') = Inl TypeError
   \<and> fst (analyze example_cfg (example_world (Responded (PList [])) Written) (Some ())
        empty_state) = Error ''Failed to analyze image'' 500"
  by code_simp

text \<open>For one request whose fetch raises, with the reply spelled out.\<close>

lemma fetch_raises_not_cached:
  assumes "py_contains (label p) (nutrition_db s) = Inr False"
    and "predict_image w img = Inr (p # ps)"
    and "fst (get_nutrition_data_from_api cfg (edamam w) (label p)) = Inl e"
  shows "fst (analyze cfg w (Some img) s) = failed \<and> fst (snd (analyze cfg w (Some img) s)) = s"
proof -
  obtain posts where f: "get_nutrition_data_from_api cfg (edamam w) (label p) = (Inl e, posts)"
    using assms(3) by (cases "get_nutrition_data_from_api cfg (edamam w) (label p)") simp
  show ?thesis by (simp add: analyze_miss [OF assms(1,2) f])
qed

section \<open>Zero calories\<close>

text \<open>
  C5. A body whose calories come to zero has, for the caller, the effect of a
  request that failed: \<^verbatim>\<open>get_nutrition_data_from_api\<close> returns \<open>None\<close> and makes
  the same post, the request is answered exactly as if the provider had failed
  (null fields, no allergens), and the cache gets no entry.
\<close>

theorem zero_calories_like_failure:
  assumes miss: "py_contains (label p) (nutrition_db s) = Inr False"
    and pred: "predict_image w img = Inr (p # ps)"
    and reply: "edamam w (api_post cfg (label p)) = Responded data"
    and parsed: "parse_nutrients data = Inr (Some nutrients)"
    and nonempty: "truthy nutrients"
    and kcal: "get_nutrient nutrients ''ENERC_KCAL'' = Inr c"
    and zero: "py_int c = 0"
  shows "get_nutrition_data_from_api cfg (edamam w) (label p)
       = get_nutrition_data_from_api cfg (\<lambda>_. RequestFailed) (label p)
    \<and> fst (get_nutrition_data_from_api cfg (edamam w) (label p)) = Inr PNone
    \<and> analyze cfg w (Some img) s = analyze cfg (w\<lparr>edamam := \<lambda>_. RequestFailed\<rparr>) (Some img) s
    \<and> fst (analyze cfg w (Some img) s) = Analysis (p # ps) PNone (PList [])
    \<and> fst (snd (analyze cfg w (Some img) s)) = s"
proof -
  have rr: "read_response data = Inr PNone"
    using parsed nonempty kcal zero
    by (simp add: read_response_def format_nutrients_def and_then_def)
  have same: "get_nutrition_data_from_api cfg (edamam w) (label p)
       = get_nutrition_data_from_api cfg (\<lambda>_. RequestFailed) (label p)"
    using reply rr by (simp add: get_nutrition_data_from_api_def Let_def)
  have none: "fst (get_nutrition_data_from_api cfg (edamam w) (label p)) = Inr PNone"
    using reply rr by (simp add: get_nutrition_data_from_api_def Let_def)
  obtain posts where f: "get_nutrition_data_from_api cfg (edamam w) (label p) = (Inr PNone, posts)"
    using none by (cases "get_nutrition_data_from_api cfg (edamam w) (label p)") simp
  have a1: "analyze cfg w (Some img) s
      = (Analysis (p # ps) PNone (PList []), s, ApiCall (label p) # map HttpPost posts)"
    by (simp add: analyze_miss [OF miss pred f] respond_def)
  have a2: "analyze cfg (w\<lparr>edamam := \<lambda>_. RequestFailed\<rparr>) (Some img) s
      = (Analysis (p # ps) PNone (PList []), s, ApiCall (label p) # map HttpPost posts)"
    using analyze_miss [of p s "w\<lparr>edamam := \<lambda>_. RequestFailed\<rparr>" img ps cfg "Inr PNone" posts]
      miss pred f same by (simp add: respond_def)
  show ?thesis
    using same none a1 a2 by simp
qed

theorem zero_calories_witness:
  "analyze example_cfg (example_world (Responded broth_body) Written) (Some ()) empty_state
     = analyze example_cfg (example_world RequestFailed Written) (Some ()) empty_state
   \<and> fst (analyze example_cfg (example_world (Responded broth_body) Written) (Some ())
        empty_state) = Analysis top3 PNone (PList [])
   \<and> fst (snd (analyze example_cfg (example_world (Responded broth_body) Written) (Some ())
        empty_state)) = empty_state"
proof -
  let ?w = "example_world (Responded broth_body) Written"
  have t: "hd top3 # tl top3 = top3" "label (hd top3) = ''Pizza''" by (simp_all add: top3_def)
  have h1: "py_contains (label (hd top3)) (nutrition_db empty_state) = Inr False"
    by (simp add: empty_state_def)
  have h2: "predict_image ?w () = Inr (hd top3 # tl top3)"
    by (simp add: t predict_example_world)
  have h3: "edamam ?w (api_post example_cfg (label (hd top3))) = Responded broth_body"
    by (simp add: edamam_example_world)
  have h4: "parse_nutrients broth_body = Inr (Some (PDict broth_nutrients))"
    by code_simp
  have h5: "truthy (PDict broth_nutrients)" by (simp add: broth_nutrients_def)
  have h6: "get_nutrient (PDict broth_nutrients) ''ENERC_KCAL'' = Inr (NFloat (9 / 10))"
    by code_simp
  have h7: "py_int (NFloat (9 / 10)) = 0" by code_simp
  have w: "?w\<lparr>edamam := \<lambda>_. RequestFailed\<rparr> = example_world RequestFailed Written"
    by (simp add: example_world_def)
  note inst = zero_calories_like_failure [OF h1 h2 h3 h4 h5 h6 h7]
  have c3: "analyze example_cfg ?w (Some ()) empty_state
      = analyze example_cfg (example_world RequestFailed Written) (Some ()) empty_state"
    using inst [THEN conjunct2, THEN conjunct2, THEN conjunct1] by (simp only: w)
  have c4: "fst (analyze example_cfg ?w (Some ()) empty_state) = Analysis top3 PNone (PList [])"
    using inst [THEN conjunct2, THEN conjunct2, THEN conjunct2, THEN conjunct1] by (simp only: t)
  have c5: "fst (snd (analyze example_cfg ?w (Some ()) empty_state)) = empty_state"
    using inst [THEN conjunct2, THEN conjunct2, THEN conjunct2, THEN conjunct2] .
  from c3 c4 c5 show ?thesis by (intro conjI)
qed

section \<open>The invariant\<close>

lemma cache_ok_dict_set: "cache_ok kvs \<Longrightarrow> is_record v \<Longrightarrow> cache_ok (dict_set k v kvs)"
  by (induction kvs) (auto simp: cache_ok_def)

lemma cache_ok_lookup: "cache_ok kvs \<Longrightarrow> map_of kvs k = Some v \<Longrightarrow> is_record v"
  using map_of_SomeD [of kvs k v] by (fastforce simp: cache_ok_def list_all_iff)

lemma disk_ok_write: "disk_ok d \<Longrightarrow> cache_ok kvs \<Longrightarrow> disk_ok (write_db wr (PDict kvs) d)"
  by (cases wr) (simp_all add: disk_ok_def)

lemma fetched_in_Nil [simp]: "\<not> fetched_in cfg [] k v"
  by (simp add: fetched_in_def)

lemma fetched_in_Cons:
  "fetched_in cfg ((w, img) # rs) k v \<longleftrightarrow>
     (\<exists>i p ps. img = Some i \<and> predict_image w i = Inr (p # ps) \<and> label p = k
        \<and> fst (get_nutrition_data_from_api cfg (edamam w) k) = Inr v)
     \<or> fetched_in cfg rs k v"
  by (auto simp: fetched_in_def split: option.splits sum.splits list.splits)

text \<open>One request keeps the invariant; so does any number of them.\<close>

lemma analyze_invariant:
  assumes db: "nutrition_db s = PDict kvs" and step: "analyze cfg w img s = (r, s1, evs)"
  shows "\<exists>kvs1. nutrition_db s1 = PDict kvs1
    \<and> (\<forall>k v. map_of kvs1 k = Some v \<longrightarrow>
          map_of kvs k = Some v \<or> (fetched_in cfg [(w, img)] k v \<and> is_record v))
    \<and> (cache_ok kvs \<longrightarrow> cache_ok kvs1)
    \<and> (cache_ok kvs \<and> disk_ok (db_file s) \<longrightarrow> disk_ok (db_file s1))"
  using analyze_cases [OF db step]
proof
  assume "s1 = s"
  with db show ?thesis by auto
next
  assume "\<exists>i p ps v. img = Some i \<and> predict_image w i = Inr (p # ps) \<and> map_of kvs (label p) = None
     \<and> fst (get_nutrition_data_from_api cfg (edamam w) (label p)) = Inr v \<and> truthy v
     \<and> s1 = \<lparr>nutrition_db = PDict (dict_set (label p) v kvs),
             db_file = write_db (disk_write w) (PDict (dict_set (label p) v kvs)) (db_file s)\<rparr>"
  then obtain i p ps v where i: "img = Some i" and pred: "predict_image w i = Inr (p # ps)"
    and f: "fst (get_nutrition_data_from_api cfg (edamam w) (label p)) = Inr v" and t: "truthy v"
    and s1: "s1 = \<lparr>nutrition_db = PDict (dict_set (label p) v kvs),
             db_file = write_db (disk_write w) (PDict (dict_set (label p) v kvs)) (db_file s)\<rparr>"
    by blast
  have rec: "is_record v" using fetch_shape [OF f] t by auto
  have ok1: "cache_ok (dict_set (label p) v kvs)" if "cache_ok kvs"
    using that rec by (rule cache_ok_dict_set)
  have d: "disk_ok (db_file s1)" if "cache_ok kvs" "disk_ok (db_file s)"
    unfolding s1 using that ok1 by (simp add: disk_ok_write)
  have "map_of kvs k = Some v' \<or> (fetched_in cfg [(w, img)] k v' \<and> is_record v')"
    if "map_of (dict_set (label p) v kvs) k = Some v'" for k v'
    using that i pred f rec by (auto simp: map_of_dict_set fetched_in_Cons split: if_splits)
  with ok1 d show ?thesis by (auto simp: s1)
qed

lemma serve_invariant:
  assumes "nutrition_db s = PDict kvs" and "serve cfg s rs = (out, s')"
  shows "\<exists>kvs'. nutrition_db s' = PDict kvs'
    \<and> (\<forall>k v. map_of kvs' k = Some v \<longrightarrow>
          map_of kvs k = Some v \<or> (fetched_in cfg rs k v \<and> is_record v))
    \<and> (cache_ok kvs \<longrightarrow> cache_ok kvs')
    \<and> (cache_ok kvs \<and> disk_ok (db_file s) \<longrightarrow> disk_ok (db_file s'))"
  using assms
proof (induction rs arbitrary: s kvs out)
  case Nil
  then show ?case by auto
next
  case (Cons a rs)
  obtain w img where a: "a = (w, img)" by (cases a)
  obtain r s1 evs where step: "analyze cfg w img s = (r, s1, evs)"
    by (cases "analyze cfg w img s")
  obtain out1 where rest: "serve cfg s1 rs = (out1, s')"
    using Cons.prems(2) by (auto simp: a step split: prod.splits)
  from analyze_invariant [OF Cons.prems(1) step]
  obtain kvs1 where k1: "nutrition_db s1 = PDict kvs1"
    and p1: "\<And>k v. map_of kvs1 k = Some v \<Longrightarrow>
          map_of kvs k = Some v \<or> (fetched_in cfg [(w, img)] k v \<and> is_record v)"
    and c1: "cache_ok kvs \<Longrightarrow> cache_ok kvs1"
    and d1: "cache_ok kvs \<Longrightarrow> disk_ok (db_file s) \<Longrightarrow> disk_ok (db_file s1)"
    by blast
  from Cons.IH [OF k1 rest] obtain kvs' where k': "nutrition_db s' = PDict kvs'"
    and p': "\<And>k v. map_of kvs' k = Some v \<Longrightarrow>
          map_of kvs1 k = Some v \<or> (fetched_in cfg rs k v \<and> is_record v)"
    and c': "cache_ok kvs1 \<Longrightarrow> cache_ok kvs'"
    and d': "cache_ok kvs1 \<Longrightarrow> disk_ok (db_file s1) \<Longrightarrow> disk_ok (db_file s')"
    by blast
  have "map_of kvs k = Some v \<or> (fetched_in cfg (a # rs) k v \<and> is_record v)"
    if "map_of kvs' k = Some v" for k v
    using p' [OF that] p1 [of k v] by (auto simp: a fetched_in_Cons)
  moreover have "cache_ok kvs \<longrightarrow> cache_ok kvs'" using c1 c' by blast
  moreover have "cache_ok kvs \<and> disk_ok (db_file s) \<longrightarrow> disk_ok (db_file s')"
    using c1 d1 d' by blast
  ultimately show ?case using k' by blast
qed

lemma load_db_ok:
  assumes "disk_ok d" and "load_db d = Inr (PDict kvs0)"
  shows "cache_ok kvs0"
  using assms
  by (auto simp: disk_ok_def load_db_def and_then_def cache_ok_def split: disk.splits pyval.splits)

text \<open>
  C6. In a process that started with a dict as its cache, after any sequence of
  requests every key of the cache maps either to the value that was loaded for it
  at the start, or to the value that the fetch of a request with that top label
  returned, and such a value is a complete record: never \<open>None\<close>, never a dict
  with a field missing. When the store file was absent, cut short or a snapshot of
  complete records (what this program leaves behind), every value of the cache is
  a complete record and the store file is again such a file.
\<close>

theorem cache_invariant:
  assumes "startup d = Inr s0" and "nutrition_db s0 = PDict kvs0"
    and "serve cfg s0 rs = (out, s)"
  shows "\<exists>kvs. nutrition_db s = PDict kvs
    \<and> (\<forall>k v. map_of kvs k = Some v \<longrightarrow>
          map_of kvs0 k = Some v \<or> (fetched_in cfg rs k v \<and> v \<noteq> PNone \<and> is_record v))
    \<and> (disk_ok d \<longrightarrow> cache_ok kvs \<and> disk_ok (db_file s))"
proof -
  have l: "load_db d = Inr (PDict kvs0)" and f: "db_file s0 = d"
    using assms(1,2) by (auto simp: startup_def and_then_def split: sum.splits)
  from serve_invariant [OF assms(2,3)]
  obtain kvs where k: "nutrition_db s = PDict kvs"
    and p: "\<And>k v. map_of kvs k = Some v \<Longrightarrow>
          map_of kvs0 k = Some v \<or> (fetched_in cfg rs k v \<and> is_record v)"
    and c: "cache_ok kvs0 \<Longrightarrow> cache_ok kvs"
    and d: "cache_ok kvs0 \<Longrightarrow> disk_ok (db_file s0) \<Longrightarrow> disk_ok (db_file s)"
    by blast
  have n: "v \<noteq> PNone" if "is_record v" for v
    using that by (auto simp: is_record_def)
  have "map_of kvs0 k = Some v \<or> (fetched_in cfg rs k v \<and> v \<noteq> PNone \<and> is_record v)"
    if "map_of kvs k = Some v" for k v
    using p [OF that] n by blast
  moreover have "disk_ok d \<longrightarrow> cache_ok kvs \<and> disk_ok (db_file s)"
    using load_db_ok [OF _ l] c d f by blast
  ultimately show ?thesis using k by blast
qed

theorem cache_invariant_witness:
  "is_record pizza_record
   \<and> fetched_in example_cfg [(example_world (Responded pizza_body) Written, Some ())]
        ''Pizza'' pizza_record
   \<and> disk_ok (db_file (snd (serve example_cfg empty_state
        [(example_world (Responded pizza_body) Written, Some ())])))"
proof -
  let ?rs = "[(example_world (Responded pizza_body) Written, Some ())]"
  let ?r = "serve example_cfg empty_state ?rs"
  have h1: "disk_ok Missing" by (simp add: disk_ok_def)
  have h2: "startup Missing = Inr empty_state"
    by (simp add: startup_def load_db_def and_then_def empty_state_def)
  have h3: "nutrition_db empty_state = PDict []" by (simp add: empty_state_def)
  have h4: "?r = (fst ?r, snd ?r)" by simp
  have e: "nutrition_db (snd ?r) = PDict [(''Pizza'', pizza_record)]" by code_simp
  from cache_invariant [OF h2 h3 h4]
  obtain kvs where k: "nutrition_db (snd ?r) = PDict kvs"
    and inv: "\<forall>k v. map_of kvs k = Some v \<longrightarrow> map_of [] k = Some v
          \<or> (fetched_in example_cfg ?rs k v \<and> v \<noteq> PNone \<and> is_record v)"
    and d: "disk_ok Missing \<longrightarrow> cache_ok kvs \<and> disk_ok (db_file (snd ?r))"
    by (elim exE conjE)
  from k e have kvs: "kvs = [(''Pizza'', pizza_record)]" by simp
  from inv [rule_format, of "''Pizza''" pizza_record]
  have "is_record pizza_record \<and> fetched_in example_cfg ?rs ''Pizza'' pizza_record"
    by (simp add: kvs)
  with d h1 show ?thesis by simp
qed

section \<open>Credentials\<close>

lemma placeholder_credentials_skip:
  assumes "APP_ID cfg = Some ''EDAMAM_APP_ID'' \<or> APP_KEY cfg = Some ''EDAMAM_APP_KEY''"
  shows "get_nutrition_data_from_api cfg net food_name = (Inr PNone, [])"
  using assms by (auto simp: get_nutrition_data_from_api_def)

lemma unset_credentials_post:
  assumes "APP_ID cfg = None" and "APP_KEY cfg = None"
  shows "snd (get_nutrition_data_from_api cfg net food_name) = [api_post cfg food_name]"
  using assms by (simp add: get_nutrition_data_from_api_def Let_def)

text \<open>
  C7. A credential that is the placeholder makes the function return \<open>None\<close>
  without a post (lemma \<open>placeholder_credentials_skip\<close>). A credential that is not
  set is \<open>None\<close> in \<^verbatim>\<open>APP_ID\<close>, which the test against the placeholder string lets
  through: with \<^verbatim>\<open>EDAMAM_APP_ID\<close> not set, a request for a label that is not in
  the cache posts to the provider, with \<^verbatim>\<open>app_id=None\<close> in the address.
\<close>

theorem unset_credential_still_posts:
  "get_nutrition_data_from_api unset_cfg (edamam (example_world RequestFailed Written)) ''Pizza''
     = (Inr PNone,
        [\<lparr>url = ''https://api.edamam.com/api/nutrition-details?app_id=None&app_key=app-key'',
          ingr = [''100g pizza'']\<rparr>])
   \<and> http_posts (snd (snd (analyze unset_cfg (example_world RequestFailed Written) (Some ())
        empty_state)))
     = [\<lparr>url = ''https://api.edamam.com/api/nutrition-details?app_id=None&app_key=app-key'',
         ingr = [''100g pizza'']\<rparr>]"
  by code_simp

section \<open>Calories and the fields of a record\<close>

lemma get_nutrient_missing:
  "map_of kvs key = None \<Longrightarrow> get_nutrient (PDict kvs) key = Inr (NInt 0)"
  by (simp add: get_nutrient_def and_then_def)

lemma get_nutrient_float:
  assumes "map_of kvs key = Some (PDict e)" and "map_of e ''quantity'' = Some (PFloat q)"
  shows "get_nutrient (PDict kvs) key = Inr (NFloat (round1 q))"
  using assms by (simp add: get_nutrient_def and_then_def)

lemma py_int_zero_iff: "py_int (NFloat r) = 0 \<longleftrightarrow> - 1 < r \<and> r < 1"
  by (auto simp: floor_eq_iff ceiling_eq_iff)

lemma collect_missing:
  assumes "collect (PDict kvs) fl = Inr fs" and "distinct (map fst fl)"
    and "(name, key) \<in> set fl" and "map_of kvs key = None"
  shows "map_of fs name = Some (PInt 0)"
  using assms
proof (induction fl arbitrary: fs)
  case Nil
  then show ?case by simp
next
  case (Cons a fl)
  obtain name' key' where a: "a = (name', key')" by (cases a)
  from Cons.prems(1) a obtain x xs where x: "get_nutrient (PDict kvs) key' = Inr x"
    and xs: "collect (PDict kvs) fl = Inr xs" and fs: "fs = (name', num_val x) # xs"
    by (auto simp: and_then_def split: sum.splits)
  show ?case
  proof (cases "name' = name")
    case True
    with Cons.prems(2,3) a have "key' = key"
      by (auto simp: image_iff)
    with x Cons.prems(4) have "x = NInt 0" by (simp add: get_nutrient_missing)
    with fs True show ?thesis by simp
  next
    case False
    with Cons.prems a have "(name, key) \<in> set fl" "distinct (map fst fl)" by auto
    from Cons.IH [OF xs this(2) this(1) Cons.prems(4)] fs False show ?thesis by simp
  qed
qed

lemma distinct_nutrient_fields: "distinct (map fst nutrient_fields)"
  by code_simp

lemma length_field_names: "length field_names = 24"
  by (simp add: field_names_def nutrient_fields_def)

lemma format_nutrients_record:
  assumes "format_nutrients (PDict kvs) = Inr v" and "v \<noteq> PNone"
  shows "\<exists>c fs. get_nutrient (PDict kvs) ''ENERC_KCAL'' = Inr c \<and> py_int c \<noteq> 0
    \<and> v = PDict [(''nutritionPer100g'', PDict ((''calories'', PInt (py_int c)) # fs)),
                 (''allergens'', PList [])]
    \<and> map fst ((''calories'', PInt (py_int c)) # fs) = field_names
    \<and> (\<forall>(name, key) \<in> set nutrient_fields.
          map_of kvs key = None \<longrightarrow> map_of fs name = Some (PInt 0))"
proof -
  from assms obtain c fs where c: "get_nutrient (PDict kvs) ''ENERC_KCAL'' = Inr c"
    and nz: "py_int c \<noteq> 0" and fs: "collect (PDict kvs) nutrient_fields = Inr fs"
    and v: "v = PDict [(''nutritionPer100g'', PDict ((''calories'', PInt (py_int c)) # fs)),
                 (''allergens'', PList [])]"
    by (auto simp: format_nutrients_def and_then_def Let_def split: sum.splits if_splits)
  have "map_of fs name = Some (PInt 0)"
    if "(name, key) \<in> set nutrient_fields" "map_of kvs key = None" for name key
    using collect_missing [OF fs distinct_nutrient_fields that] .
  then show ?thesis
    using c nz v collect_names [OF fs] by (auto simp: field_names_def)
qed

lemma fetch_record_source:
  assumes "fst (get_nutrition_data_from_api cfg net food_name) = Inr v" and "v \<noteq> PNone"
  shows "\<exists>data kvs. net (api_post cfg food_name) = Responded data
    \<and> parse_nutrients data = Inr (Some (PDict kvs)) \<and> format_nutrients (PDict kvs) = Inr v"
proof -
  from assms obtain data where d: "net (api_post cfg food_name) = Responded data"
    and r: "read_response data = Inr v"
    by (auto simp: get_nutrition_data_from_api_def Let_def split: if_splits http_result.splits)
  from r assms(2) obtain nutrients where n: "parse_nutrients data = Inr (Some nutrients)"
    and f: "format_nutrients nutrients = Inr v"
    by (auto simp: read_response_def and_then_def split: sum.splits option.splits if_splits)
  from f assms(2) obtain kvs where "nutrients = PDict kvs"
    by (cases nutrients)
      (auto simp: format_nutrients_def get_nutrient_def and_then_def split: sum.splits)
  with d n f show ?thesis by blast
qed

lemma fetch_zero_calories:
  assumes "net (api_post cfg food_name) = Responded data"
    and "parse_nutrients data = Inr (Some nutrients)"
    and "get_nutrient nutrients ''ENERC_KCAL'' = Inr c" and "py_int c = 0"
  shows "fst (get_nutrition_data_from_api cfg net food_name) = Inr PNone"
  using assms
  by (simp add: get_nutrition_data_from_api_def Let_def read_response_def format_nutrients_def
      and_then_def)

text \<open>
  C10, as the code has it. The calories are \<^verbatim>\<open>int(round(quantity, 1))\<close>: a float
  quantity is rounded to one decimal and the result truncated towards zero, which
  gives 0 exactly when the rounded value lies strictly between -1 and 1. Whenever
  the calories come to 0 the fetch returns \<open>None\<close>. A record that is returned has
  the 24 fields, \<^verbatim>\<open>calories\<close> first, and a field whose key the body does not have
  is the integer 0.
\<close>

theorem calories_rounding_and_fields:
  "(net (api_post cfg food_name) = Responded data
      \<and> parse_nutrients data = Inr (Some nutrients)
      \<and> get_nutrient nutrients ''ENERC_KCAL'' = Inr c \<and> py_int c = 0
    \<longrightarrow> fst (get_nutrition_data_from_api cfg net food_name) = Inr PNone)
   \<and> (map_of kvs ''ENERC_KCAL'' = Some (PDict e) \<and> map_of e ''quantity'' = Some (PFloat q)
    \<longrightarrow> get_nutrient (PDict kvs) ''ENERC_KCAL'' = Inr (NFloat (round1 q))
        \<and> py_int (NFloat (round1 q)) = (if 0 \<le> round1 q then \<lfloor>round1 q\<rfloor> else \<lceil>round1 q\<rceil>)
        \<and> (py_int (NFloat (round1 q)) = 0 \<longleftrightarrow> - 1 < round1 q \<and> round1 q < 1))
   \<and> (fst (get_nutrition_data_from_api cfg net food_name) = Inr v \<and> v \<noteq> PNone
    \<longrightarrow> (\<exists>body ns c' fs.
          net (api_post cfg food_name) = Responded body
          \<and> parse_nutrients body = Inr (Some (PDict ns))
          \<and> get_nutrient (PDict ns) ''ENERC_KCAL'' = Inr c' \<and> py_int c' \<noteq> 0
          \<and> v = PDict [(''nutritionPer100g'', PDict ((''calories'', PInt (py_int c')) # fs)),
                       (''allergens'', PList [])]
          \<and> map fst ((''calories'', PInt (py_int c')) # fs) = field_names
          \<and> length field_names = 24
          \<and> (\<forall>(name, key) \<in> set nutrient_fields.
                map_of ns key = None \<longrightarrow> map_of fs name = Some (PInt 0))))"
proof (intro conjI impI)
  assume "net (api_post cfg food_name) = Responded data
      \<and> parse_nutrients data = Inr (Some nutrients)
      \<and> get_nutrient nutrients ''ENERC_KCAL'' = Inr c \<and> py_int c = 0"
  then show "fst (get_nutrition_data_from_api cfg net food_name) = Inr PNone"
    using fetch_zero_calories by blast
next
  assume "map_of kvs ''ENERC_KCAL'' = Some (PDict e) \<and> map_of e ''quantity'' = Some (PFloat q)"
  then show "get_nutrient (PDict kvs) ''ENERC_KCAL'' = Inr (NFloat (round1 q))"
    using get_nutrient_float by blast
next
  show "py_int (NFloat (round1 q)) = (if 0 \<le> round1 q then \<lfloor>round1 q\<rfloor> else \<lceil>round1 q\<rceil>)"
    by simp
next
  show "py_int (NFloat (round1 q)) = 0 \<longleftrightarrow> - 1 < round1 q \<and> round1 q < 1"
    by (rule py_int_zero_iff)
next
  assume a: "fst (get_nutrition_data_from_api cfg net food_name) = Inr v \<and> v \<noteq> PNone"
  then obtain body ns where b: "net (api_post cfg food_name) = Responded body"
    and p: "parse_nutrients body = Inr (Some (PDict ns))"
    and f: "format_nutrients (PDict ns) = Inr v"
    using fetch_record_source by blast
  from format_nutrients_record [OF f] a length_field_names b p
  show "\<exists>body ns c' fs.
          net (api_post cfg food_name) = Responded body
          \<and> parse_nutrients body = Inr (Some (PDict ns))
          \<and> get_nutrient (PDict ns) ''ENERC_KCAL'' = Inr c' \<and> py_int c' \<noteq> 0
          \<and> v = PDict [(''nutritionPer100g'', PDict ((''calories'', PInt (py_int c')) # fs)),
                       (''allergens'', PList [])]
          \<and> map fst ((''calories'', PInt (py_int c')) # fs) = field_names
          \<and> length field_names = 24
          \<and> (\<forall>(name, key) \<in> set nutrient_fields.
                map_of ns key = None \<longrightarrow> map_of fs name = Some (PInt 0))"
    by blast
qed

text \<open>
  The sentence of C10 as it stands, "any value whose one-decimal rounding is below
  1": the quantity -5.0 rounds to -5.0, which is below 1, and truncates to -5, so
  the fetch returns a record, with calories -5.
\<close>

theorem rounding_below_one_counterexample:
  "round1 (- 5) < 1
   \<and> fst (get_nutrition_data_from_api example_cfg
        (edamam (example_world (Responded negative_body) Written)) ''Pizza'')
      = Inr negative_record
   \<and> negative_record \<noteq> PNone"
  by code_simp

theorem calories_rounding_witness:
  "fst (get_nutrition_data_from_api example_cfg
        (edamam (example_world (Responded broth_body) Written)) ''Pizza'') = Inr PNone
   \<and> get_nutrient (PDict broth_nutrients) ''ENERC_KCAL''
      = Inr (NFloat (round1 (8106479329266893 / 9007199254740992)))
   \<and> py_int (NFloat (round1 (8106479329266893 / 9007199254740992))) = 0
   \<and> (\<exists>fs. pizza_nutrition = PDict ((''calories'', PInt 266) # fs)
          \<and> map_of fs ''fat'' = Some (PInt 0))"
proof -
  let ?q = "8106479329266893 / 9007199254740992 :: rat"
  let ?broth = "edamam (example_world (Responded broth_body) Written)"
  let ?pizza = "edamam (example_world (Responded pizza_body) Written)"
  have b1: "?broth (api_post example_cfg ''Pizza'') = Responded broth_body"
    by (simp add: edamam_example_world)
  have b2: "parse_nutrients broth_body = Inr (Some (PDict broth_nutrients))" by code_simp
  have b3: "get_nutrient (PDict broth_nutrients) ''ENERC_KCAL'' = Inr (NFloat (9 / 10))"
    by code_simp
  have b4: "py_int (NFloat (9 / 10)) = 0" by code_simp
  have b5: "map_of broth_nutrients ''ENERC_KCAL''
      = Some (PDict [(''label'', PStr ''Energy''), (''quantity'', PFloat ?q),
                     (''unit'', PStr ''kcal'')])"
    by (simp add: broth_nutrients_def entry_def)
  have b6: "map_of [(''label'', PStr ''Energy''), (''quantity'', PFloat ?q),
                     (''unit'', PStr ''kcal'')] ''quantity'' = Some (PFloat ?q)"
    by simp
  have b7: "- 1 < round1 ?q \<and> round1 ?q < 1" by code_simp
  note broth = calories_rounding_and_fields [where cfg = example_cfg and net = ?broth
      and food_name = "''Pizza''" and data = broth_body and nutrients = "PDict broth_nutrients"
      and c = "NFloat (9 / 10)" and kvs = broth_nutrients and q = ?q
      and e = "[(''label'', PStr ''Energy''), (''quantity'', PFloat ?q), (''unit'', PStr ''kcal'')]"]
  have c1: "fst (get_nutrition_data_from_api example_cfg ?broth ''Pizza'') = Inr PNone"
    using broth [THEN conjunct1, rule_format] b1 b2 b3 b4 by blast
  have c2: "get_nutrient (PDict broth_nutrients) ''ENERC_KCAL'' = Inr (NFloat (round1 ?q))"
    using broth [THEN conjunct2, THEN conjunct1, rule_format, THEN conjunct1] b5 b6
    by blast
  have c3: "py_int (NFloat (round1 ?q)) = 0"
    using broth [THEN conjunct2, THEN conjunct1, rule_format, THEN conjunct2, THEN conjunct2]
      b5 b6 b7 by blast
  have p1: "fst (get_nutrition_data_from_api example_cfg ?pizza ''Pizza'') = Inr pizza_record"
    by code_simp
  have p2: "pizza_record \<noteq> PNone" by (simp add: pizza_record_def)
  have p3: "?pizza (api_post example_cfg ''Pizza'') = Responded pizza_body"
    by (simp add: edamam_example_world)
  have p4: "parse_nutrients pizza_body = Inr (Some (PDict pizza_nutrients))" by code_simp
  have p5: "(''fat'', ''FAT'') \<in> set nutrient_fields" by (simp add: nutrient_fields_def)
  have p6: "map_of pizza_nutrients ''FAT'' = None" by (simp add: pizza_nutrients_def)
  have p7: "get_nutrient (PDict pizza_nutrients) ''ENERC_KCAL'' = Inr (NInt 266) \<or>
      get_nutrient (PDict pizza_nutrients) ''ENERC_KCAL'' = Inr (NFloat 266)" by code_simp
  from calories_rounding_and_fields [where cfg = example_cfg and net = ?pizza
      and food_name = "''Pizza''" and v = pizza_record, THEN conjunct2, THEN conjunct2,
      rule_format, OF conjI, OF p1 p2]
  obtain body ns c' fs where q1: "?pizza (api_post example_cfg ''Pizza'') = Responded body"
    and q2: "parse_nutrients body = Inr (Some (PDict ns))"
    and q3: "get_nutrient (PDict ns) ''ENERC_KCAL'' = Inr c'"
    and q4: "pizza_record = PDict [(''nutritionPer100g'', PDict ((''calories'', PInt (py_int c')) # fs)),
                       (''allergens'', PList [])]"
    and q5: "\<forall>(name, key) \<in> set nutrient_fields.
                map_of ns key = None \<longrightarrow> map_of fs name = Some (PInt 0)"
    by (elim exE conjE)
  from q1 p3 have "body = pizza_body" by simp
  with q2 p4 have ns: "ns = pizza_nutrients" by simp
  from q3 p7 have "py_int c' = 266" by (auto simp: ns)
  with q4 have c4a: "pizza_nutrition = PDict ((''calories'', PInt 266) # fs)"
    by (simp add: pizza_record_def)
  from q5 p5 p6 have c4b: "map_of fs ''fat'' = Some (PInt 0)"
    by (auto simp: ns)
  from c1 c2 c3 c4a c4b show ?thesis by blast
qed

section \<open>Threads\<close>

lemma thread_alone_cases:
  assumes "analyze cfg w img s = (r, s', evs)"
  shows "run_schedule cfg [(w, img)] [0] ([Start], s, None) = Some ([Done r], s', None)
    \<or> run_schedule cfg [(w, img)] [0, 0] ([Start], s, None) = Some ([Done r], s', None)
    \<or> run_schedule cfg [(w, img)] [0, 0, 0, 0] ([Start], s, None) = Some ([Done r], s', None)
    \<or> run_schedule cfg [(w, img)] [0, 0, 0, 0, 0, 0] ([Start], s, None)
        = Some ([Done r], s', None)"
proof (cases img)
  case None
  with assms show ?thesis by (auto simp: analyze_def thread_step_def)
next
  case (Some i)
  show ?thesis
  proof (cases "predict_image w i")
    case (Inl e)
    with assms Some show ?thesis by (auto simp: analyze_def thread_step_def)
  next
    case (Inr predictions)
    show ?thesis
    proof (cases predictions)
      case Nil
      with assms Some Inr show ?thesis by (auto simp: analyze_def thread_step_def)
    next
      case (Cons p ps)
      show ?thesis
      proof (cases "py_contains (label p) (nutrition_db s)")
        case (Inl e)
        with assms Some Inr Cons show ?thesis by (auto simp: analyze_def thread_step_def)
      next
        case c: (Inr found)
        show ?thesis
        proof (cases found)
          case True
          with assms Some Inr Cons c have "run_schedule cfg [(w, img)] [0, 0] ([Start], s, None)
              = Some ([Done r], s', None)"
            by (auto simp: analyze_def thread_step_def split: sum.splits)
          then show ?thesis by blast
        next
          case False
          obtain res posts where f: "get_nutrition_data_from_api cfg (edamam w) (label p) = (res, posts)"
            by (cases "get_nutrition_data_from_api cfg (edamam w) (label p)")
          show ?thesis
          proof (cases res)
            case (Inl e)
            with assms Some Inr Cons c False f
            have "run_schedule cfg [(w, img)] [0, 0] ([Start], s, None) = Some ([Done r], s', None)"
              by (auto simp: analyze_def thread_step_def)
            then show ?thesis by blast
          next
            case nd: (Inr nutrition_data)
            show ?thesis
            proof (cases "truthy nutrition_data")
              case nt: False
              with assms Some Inr Cons c False f nd
              have "run_schedule cfg [(w, img)] [0, 0] ([Start], s, None)
                  = Some ([Done r], s', None)"
                by (auto simp: analyze_def thread_step_def)
              then show ?thesis by blast
            next
              case t: True
              show ?thesis
              proof (cases "setitem (nutrition_db s) (label p) nutrition_data")
                case (Inl e)
                with assms Some Inr Cons c False f nd t
                have "run_schedule cfg [(w, img)] [0, 0, 0, 0] ([Start], s, None)
                    = Some ([Done r], s', None)"
                  by (auto simp: analyze_def thread_step_def)
                then show ?thesis by blast
              next
                case st: (Inr db)
                with assms Some Inr Cons c False f nd t
                have "run_schedule cfg [(w, img)] [0, 0, 0, 0, 0, 0] ([Start], s, None)
                    = Some ([Done r], s', None)"
                  by (auto simp: analyze_def thread_step_def)
                then show ?thesis by blast
              qed
            qed
          qed
        qed
      qed
    qed
  qed
qed

text \<open>A thread that runs alone does what \<^verbatim>\<open>analyze\<close> does.\<close>

lemma thread_alone:
  assumes "analyze cfg w img s = (r, s', evs)"
  shows "\<exists>sched. run_schedule cfg [(w, img)] sched ([Start], s, None) = Some ([Done r], s', None)"
  using thread_alone_cases [OF assms] by blast











end
